theory Spec2Isabelle
  imports Complex_Main
begin

section \<open>Optics math: \<^verbatim>\<open>lenses.ts\<close>\<close>

text \<open>
  A TypeScript \<^verbatim>\<open>number\<close> is modelled as a \<^typ>\<open>real\<close>: the development is about the
  arithmetic the program writes down, not about IEEE rounding. A \<^typ>\<open>real\<close> is never
  NaN; every guard of the program that mentions a new value is false on NaN, so NaN is
  always among the rejected inputs. Lens identifiers and array positions are integers.
\<close>

datatype LensType = Biconvex | Biconcave

text \<open>
  The current \<^verbatim>\<open>Lens\<close> type: all five fields are plain numbers (or the type tag).
\<close>

record Lens =
  lens_id :: int
  lens_power :: real
  lens_index :: real
  lens_type :: LensType
  lens_r :: real

text \<open>
  The current \<^verbatim>\<open>calcRadius\<close>, of return type \<^verbatim>\<open>number\<close>: zero power gives the
  number 0, and both branches on the lens type hold the same expression.
\<close>

definition calcRadius :: "real \<Rightarrow> real \<Rightarrow> LensType \<Rightarrow> real" where
  "calcRadius p n ty =
     (if p = 0 then 0
      else if ty = Biconvex then 2 * (n - 1) / p
      else 2 * (n - 1) / p)"

text \<open>
  The earlier variant of \<^verbatim>\<open>calcRadius\<close> kept beside it, of return type
  \<^verbatim>\<open>number | null\<close>: zero power gives \<^verbatim>\<open>null\<close>, modelled as \<^const>\<open>None\<close>.
\<close>

definition calcRadius_nullable :: "real \<Rightarrow> real \<Rightarrow> LensType \<Rightarrow> real option" where
  "calcRadius_nullable p n ty =
     (if p = 0 then None
      else if ty = Biconvex then Some (2 * (n - 1) / p)
      else Some (2 * (n - 1) / p))"

section \<open>Array helpers of the host language\<close>

text \<open>
  \<^verbatim>\<open>Array.prototype.findIndex\<close>: the position of the first element satisfying the
  predicate, and \<open>-1\<close> when there is none.
\<close>

fun findIndex_from :: "('a \<Rightarrow> bool) \<Rightarrow> 'a list \<Rightarrow> int \<Rightarrow> int" where
  "findIndex_from p [] i = - 1"
| "findIndex_from p (x # xs) i = (if p x then i else findIndex_from p xs (i + 1))"

definition findIndex :: "('a \<Rightarrow> bool) \<Rightarrow> 'a list \<Rightarrow> int" where
  "findIndex p xs = findIndex_from p xs 0"

text \<open>
  \<^verbatim>\<open>filter\<close> and \<^verbatim>\<open>map\<close> with the two-argument callback \<^verbatim>\<open>(element, position)\<close>.
\<close>

fun filter_from :: "('a \<Rightarrow> int \<Rightarrow> bool) \<Rightarrow> 'a list \<Rightarrow> int \<Rightarrow> 'a list" where
  "filter_from p [] i = []"
| "filter_from p (x # xs) i =
     (if p x i then x # filter_from p xs (i + 1) else filter_from p xs (i + 1))"

definition filter_idx :: "('a \<Rightarrow> int \<Rightarrow> bool) \<Rightarrow> 'a list \<Rightarrow> 'a list" where
  "filter_idx p xs = filter_from p xs 0"

fun map_from :: "('a \<Rightarrow> int \<Rightarrow> 'b) \<Rightarrow> 'a list \<Rightarrow> int \<Rightarrow> 'b list" where
  "map_from f [] i = []"
| "map_from f (x # xs) i = f x i # map_from f xs (i + 1)"

definition map_idx :: "('a \<Rightarrow> int \<Rightarrow> 'b) \<Rightarrow> 'a list \<Rightarrow> 'b list" where
  "map_idx f xs = map_from f xs 0"

text \<open>
  \<^verbatim>\<open>Array.prototype.slice(start, end)\<close>: a negative bound counts from the end of the
  array, and both bounds are clamped to the array.
\<close>

definition slice :: "'a list \<Rightarrow> int \<Rightarrow> int \<Rightarrow> 'a list" where
  "slice xs start fin =
     (let n = int (length xs);
          k = (if start < 0 then max (n + start) 0 else min start n);
          e = (if fin < 0 then max (n + fin) 0 else min fin n)
      in take (nat (e - k)) (drop (nat k) xs))"

section \<open>Lens collection state: \<^verbatim>\<open>Config.tsx\<close>\<close>

text \<open>
  The two signals \<^verbatim>\<open>lenses\<close> and \<^verbatim>\<open>distances\<close> and the module-level counter
  \<^verbatim>\<open>nextId\<close> form the state; every operation returns the state it leaves behind.
\<close>

record Model =
  lenses :: "Lens list"
  distances :: "real list"
  nextId :: int

definition initial :: Model where
  "initial = \<lparr>lenses = [], distances = [], nextId = 1\<rparr>"

text \<open>
  \<^verbatim>\<open>addLens\<close>: the lens is appended under the guard \<^verbatim>\<open>length < 3\<close>; the distance is
  appended by a second statement of its own, under the guard \<^verbatim>\<open>length > 0\<close> only.
  \<^verbatim>\<open>length\<close> is read once, before either statement.
\<close>

definition addLens :: "Model \<Rightarrow> Model" where
  "addLens s =
     (let len = length (lenses s);
          s1 = (if len < 3
                then s\<lparr>lenses := lenses s @
                          [\<lparr>lens_id = nextId s, lens_power = 6, lens_index = 1.5,
                            lens_type = Biconvex, lens_r = calcRadius 6 1.5 Biconvex\<rparr>],
                        nextId := nextId s + 1\<rparr>
                else s)
      in if len > 0 then s1\<lparr>distances := distances s1 @ [1.0]\<rparr> else s1)"

text \<open>
  \<^verbatim>\<open>deleteLens\<close>: the position is looked up in the old sequence, then compared with
  the length of the filtered one.
\<close>

definition deleteLens :: "Model \<Rightarrow> int \<Rightarrow> Model" where
  "deleteLens s i =
     (let deletedIndex = findIndex (\<lambda>l. lens_id l = i) (lenses s);
          s1 = s\<lparr>lenses := filter (\<lambda>l. lens_id l \<noteq> i) (lenses s)\<rparr>
      in if deletedIndex < int (length (lenses s1))
         then s1\<lparr>distances := filter_idx (\<lambda>_ j. j \<noteq> deletedIndex) (distances s1)\<rparr>
         else if length (distances s1) > 0
         then s1\<lparr>distances := slice (distances s1) 0 (- 1)\<rparr>
         else s1)"

definition updateLensPower :: "Lens list \<Rightarrow> int \<Rightarrow> real \<Rightarrow> Lens list" where
  "updateLensPower ls i newPower =
     map (\<lambda>l. if lens_id l = i \<and> newPower \<noteq> 0 \<and> newPower > - 7.8
               then (let radius = calcRadius newPower (lens_index l) (lens_type l)
                     in l\<lparr>lens_power := newPower, lens_r := radius\<rparr>)
               else l) ls"

definition updateLensIndex :: "Lens list \<Rightarrow> int \<Rightarrow> real \<Rightarrow> Lens list" where
  "updateLensIndex ls i newIndex =
     (if newIndex \<ge> 1.5
      then map (\<lambda>l. if lens_id l = i
                     then (let radius = calcRadius (lens_power l) newIndex (lens_type l)
                           in l\<lparr>lens_index := newIndex, lens_r := radius\<rparr>)
                     else l) ls
      else ls)"

text \<open>
  \<^verbatim>\<open>updateDistance\<close>: the guard \<^verbatim>\<open>!isNaN(newDistance) && newDistance >= 0.2\<close>; its
  first conjunct is true of every \<^typ>\<open>real\<close>.
\<close>

definition updateDistance :: "real list \<Rightarrow> int \<Rightarrow> real \<Rightarrow> real list" where
  "updateDistance ds idx newDistance =
     (if newDistance \<ge> 0.2
      then map_idx (\<lambda>d j. if j = idx then newDistance else d) ds
      else ds)"

text \<open>
  One user action on the state, and a run of actions from a given state. The update
  operations act on one signal and leave the other and the counter alone.
\<close>

datatype Action =
    AddLens
  | DeleteLens int
  | UpdateLensPower int real
  | UpdateLensIndex int real
  | UpdateDistance int real

fun step :: "Model \<Rightarrow> Action \<Rightarrow> Model" where
  "step s AddLens = addLens s"
| "step s (DeleteLens i) = deleteLens s i"
| "step s (UpdateLensPower i p) = s\<lparr>lenses := updateLensPower (lenses s) i p\<rparr>"
| "step s (UpdateLensIndex i n) = s\<lparr>lenses := updateLensIndex (lenses s) i n\<rparr>"
| "step s (UpdateDistance j d) = s\<lparr>distances := updateDistance (distances s) j d\<rparr>"

definition run :: "Model \<Rightarrow> Action list \<Rightarrow> Model" where
  "run s acts = foldl step s acts"

text \<open>
  The length relation between the two sequences:
  \<^verbatim>\<open>len(distances) == max(len(lenses) - 1, 0)\<close>, with the subtraction done on integers.
\<close>

definition distances_inv :: "Model \<Rightarrow> bool" where
  "distances_inv s =
     (int (length (distances s)) = max (int (length (lenses s)) - 1) 0)"

text \<open>The lower bound on the refractive index of every lens of a state.\<close>

definition index_ok :: "Model \<Rightarrow> bool" where
  "index_ok s = list_all (\<lambda>l. 3 / 2 \<le> lens_index l) (lenses s)"

text \<open>
  Identifiers come from the counter: they are pairwise distinct and below \<^verbatim>\<open>nextId\<close>.
\<close>

definition ids_fresh :: "Model \<Rightarrow> bool" where
  "ids_fresh s =
     (distinct (map lens_id (lenses s)) \<and> list_all (\<lambda>j. j < nextId s) (map lens_id (lenses s)))"

section \<open>Axial layout and ray trace: \<^verbatim>\<open>Renderer.tsx\<close>\<close>

text \<open>
  \<^verbatim>\<open>distances.value[i] || 1.0\<close>: a read past the end is \<^verbatim>\<open>undefined\<close>, and \<^verbatim>\<open>||\<close>
  takes the default for every falsy value, so for a stored \<open>0\<close> as well.
\<close>

definition distance_or_default :: "real list \<Rightarrow> nat \<Rightarrow> real" where
  "distance_or_default ds i =
     (if i < length ds then (if ds ! i = 0 then 1.0 else ds ! i) else 1.0)"

text \<open>The \<^verbatim>\<open>for\<close> loop of \<^verbatim>\<open>calculateLensX\<close>, from counter \<open>i\<close> and running total.\<close>

function calculateLensX_loop :: "real list \<Rightarrow> nat \<Rightarrow> nat \<Rightarrow> real \<Rightarrow> real" where
  "calculateLensX_loop ds idx i totalDistance =
     (if i < idx
      then calculateLensX_loop ds idx (i + 1)
             (totalDistance + distance_or_default ds i * 200)
      else totalDistance)"
  by pat_completeness auto
termination
  by (relation "measure (\<lambda>(ds, idx, i, t). idx - i)") auto

declare calculateLensX_loop.simps [simp del]

definition calculateLensX :: "real list \<Rightarrow> nat \<Rightarrow> real" where
  "calculateLensX ds idx =
     (if idx = 0 then 200 else calculateLensX_loop ds idx 0 200)"

text \<open>
  The SVG path string is kept as its sequence of commands: one \<^verbatim>\<open>M x y\<close>, then one
  \<^verbatim>\<open>L x y\<close> for each point the ray is drawn to.
\<close>

datatype PathCmd = M real real | L real real

fun point_of :: "PathCmd \<Rightarrow> real \<times> real" where
  "point_of (M x y) = (x, y)"
| "point_of (L x y) = (x, y)"

record Dimensions =
  dim_width :: real
  dim_height :: real

record RayState =
  pathData :: "PathCmd list"
  currentX :: real
  currentYPos :: real
  currentSlope :: real

text \<open>
  The body of \<^verbatim>\<open>lenses.forEach((lens, i) => ...)\<close> in \<^verbatim>\<open>simpleRayTrace\<close>, on the
  lenses still to visit, the position \<open>i\<close> of the first of them, and the four mutable
  variables.
\<close>

fun forEach_lens :: "real list \<Rightarrow> real \<Rightarrow> Lens list \<Rightarrow> nat \<Rightarrow> RayState \<Rightarrow> RayState" where
  "forEach_lens ds centerY [] i st = st"
| "forEach_lens ds centerY (lens # rest) i st =
     (let lensX = calculateLensX ds i;
          deltaX = lensX - currentX st;
          y = currentYPos st + currentSlope st * deltaX;
          pd = pathData st @ [L lensX y];
          h = y - centerY;
          deltaSlope = - (h / 200) * lens_power lens;
          slope = currentSlope st + deltaSlope * 0.1
      in forEach_lens ds centerY rest (i + 1)
           \<lparr>pathData = pd, currentX = lensX, currentYPos = y, currentSlope = slope\<rparr>)"

definition simpleRayTrace :: "Dimensions \<Rightarrow> real list \<Rightarrow> real \<Rightarrow> Lens list \<Rightarrow> PathCmd list" where
  "simpleRayTrace dims ds startY ls =
     (let centerY = dim_height dims / 2;
          st = forEach_lens ds centerY ls 0
                 \<lparr>pathData = [M 0 startY], currentX = 0, currentYPos = startY,
                  currentSlope = 0\<rparr>;
          endX = max (dim_width dims) (currentX st + 100);
          finalY = currentYPos st + currentSlope st * (endX - currentX st)
      in pathData st @ [L endX finalY])"

subsection \<open>The trace as the specification words it\<close>

text \<open>
  The fold of the specification, written from its sentences and independent of the loop
  above: the carried state is the current horizontal position, the current vertical
  position and the current slope, together with the crossing points recorded so far;
  the lens at sequence position \<open>k\<close> stands at \<open>positionOf k\<close>.
\<close>

definition trace_spec_step ::
  "real \<Rightarrow> (real \<times> real \<times> real) \<times> (real \<times> real) list \<Rightarrow> real \<times> real
     \<Rightarrow> (real \<times> real \<times> real) \<times> (real \<times> real) list" where
  "trace_spec_step centerAxisY acc lens =
     (case acc of ((x, y, slope), pts) \<Rightarrow>
        (case lens of (pos, pw) \<Rightarrow>
           (let y' = y + slope * (pos - x);
                deltaSlope = - ((y' - centerAxisY) / 200) * pw
            in ((pos, y', slope + deltaSlope * 0.1), pts @ [(pos, y')]))))"

definition trace_spec :: "Dimensions \<Rightarrow> real list \<Rightarrow> real \<Rightarrow> Lens list \<Rightarrow> (real \<times> real) list" where
  "trace_spec dims ds startHeight lensSequence =
     (case foldl (trace_spec_step (dim_height dims / 2)) ((0, startHeight, 0), [])
             (zip (map (calculateLensX ds) [0..<length lensSequence])
                  (map lens_power lensSequence))
      of ((x, y, slope), pts) \<Rightarrow>
        (let endX = max (dim_width dims) (x + 100)
         in (0, startHeight) # pts @ [(endX, y + slope * (endX - x))]))"

section \<open>Sample states\<close>

text \<open>The state after three lenses have been added to the empty collection.\<close>

definition three_lenses :: Model where
  "three_lenses =
     \<lparr>lenses =
        [\<lparr>lens_id = 1, lens_power = 6, lens_index = 3 / 2, lens_type = Biconvex,
          lens_r = 1 / 6\<rparr>,
         \<lparr>lens_id = 2, lens_power = 6, lens_index = 3 / 2, lens_type = Biconvex,
          lens_r = 1 / 6\<rparr>,
         \<lparr>lens_id = 3, lens_power = 6, lens_index = 3 / 2, lens_type = Biconvex,
          lens_r = 1 / 6\<rparr>],
      distances = [1, 1], nextId = 4\<rparr>"

text \<open>The same three lenses with gaps of 1 m and 1.5 m between them.\<close>

definition three_spaced :: Model where
  "three_spaced = three_lenses\<lparr>distances := [1, 3 / 2]\<rparr>"

section \<open>Facts about the array helpers\<close>

lemma findIndex_from_none:
  "\<forall>x\<in>set xs. \<not> p x \<Longrightarrow> findIndex_from p xs i = - 1"
  by (induction xs arbitrary: i) auto

lemma findIndex_from_first:
  "k < length xs \<Longrightarrow> p (xs ! k) \<Longrightarrow> \<forall>j<k. \<not> p (xs ! j) \<Longrightarrow>
   findIndex_from p xs i = i + int k"
proof (induction xs arbitrary: i k)
  case Nil
  then show ?case by simp
next
  case (Cons x xs)
  show ?case
  proof (cases k)
    case 0
    with Cons.prems show ?thesis by simp
  next
    case (Suc m)
    from Cons.prems Suc have nx: "\<not> p x" by auto
    from Cons.prems Suc have "m < length xs" "p (xs ! m)" "\<forall>j<m. \<not> p (xs ! j)"
      by auto
    then have "findIndex_from p xs (i + 1) = i + 1 + int m"
      by (rule Cons.IH)
    with nx Suc show ?thesis by simp
  qed
qed

lemma filter_from_skip:
  "filter_from (\<lambda>_ j. j \<noteq> d) xs i =
     (if i \<le> d \<and> d < i + int (length xs)
      then take (nat (d - i)) xs @ drop (Suc (nat (d - i))) xs else xs)"
proof (induction xs arbitrary: i)
  case Nil
  then show ?case by simp
next
  case (Cons x xs)
  show ?case
  proof (cases "i = d")
    case True
    have "filter_from (\<lambda>_ j. j \<noteq> d) xs (d + 1) = xs"
      by (simp add: Cons.IH)
    with True show ?thesis by simp
  next
    case False
    have "nat (d - i) = Suc (nat (d - (i + 1)))" if "i < d"
      using that by simp
    with False show ?thesis
      by (auto simp: Cons.IH)
  qed
qed

lemma map_from_length: "length (map_from f xs i) = length xs"
  by (induction xs arbitrary: i) auto

lemma map_from_nth: "k < length xs \<Longrightarrow> map_from f xs i ! k = f (xs ! k) (i + int k)"
proof (induction xs arbitrary: i k)
  case Nil
  then show ?case by simp
next
  case (Cons x xs)
  then show ?case by (cases k) (auto simp: algebra_simps)
qed

lemma slice_drop_last: "slice xs 0 (- 1) = butlast xs"
proof -
  have "nat (max (int (length xs) - 1) 0) = length xs - 1" by arith
  then show ?thesis
    by (simp add: slice_def Let_def butlast_conv_take)
qed

section \<open>Facts about removing a lens\<close>

lemma filter_remove_distinct:
  "distinct (map f xs) \<Longrightarrow> k < length xs \<Longrightarrow> f (xs ! k) = i \<Longrightarrow>
   filter (\<lambda>x. f x \<noteq> i) xs = take k xs @ drop (Suc k) xs"
proof (induction xs arbitrary: k)
  case Nil
  then show ?case by simp
next
  case (Cons x xs)
  show ?case
  proof (cases k)
    case 0
    with Cons.prems have fx: "f x = i" and nin: "f x \<notin> f ` set xs" by simp_all
    have "\<forall>y\<in>set xs. f y \<noteq> i"
    proof
      fix y assume "y \<in> set xs"
      then have "f y \<in> f ` set xs" by (rule imageI)
      with nin fx show "f y \<noteq> i" by metis
    qed
    then have "filter (\<lambda>x. f x \<noteq> i) xs = xs" by (simp add: filter_id_conv)
    with fx 0 show ?thesis by simp
  next
    case (Suc m)
    with Cons.prems have m: "m < length xs" "f (xs ! m) = i" and d: "distinct (map f xs)"
      by auto
    from m have "i \<in> f ` set xs" by (metis imageI nth_mem)
    with Cons.prems have "f x \<noteq> i" by auto
    with Suc Cons.IH [OF d m] show ?thesis by simp
  qed
qed

lemma filter_none: "\<forall>x\<in>set xs. f x \<noteq> i \<Longrightarrow> filter (\<lambda>x. f x \<noteq> i) xs = xs"
  by (simp add: filter_id_conv)

lemma distinct_first_occurrence:
  "distinct (map f xs) \<Longrightarrow> k < length xs \<Longrightarrow> f (xs ! k) = i \<Longrightarrow> \<forall>j<k. f (xs ! j) \<noteq> i"
  by (metis (no_types, lifting) distinct_conv_nth length_map less_imp_neq less_trans nth_map)

lemma findIndex_absent:
  "\<forall>l\<in>set ls. lens_id l \<noteq> i \<Longrightarrow> findIndex (\<lambda>l. lens_id l = i) ls = - 1"
  by (simp add: findIndex_def findIndex_from_none)

lemma findIndex_distinct:
  "distinct (map lens_id ls) \<Longrightarrow> k < length ls \<Longrightarrow> lens_id (ls ! k) = i \<Longrightarrow>
   findIndex (\<lambda>l. lens_id l = i) ls = int k"
  using findIndex_from_first [of k ls "\<lambda>l. lens_id l = i" 0]
    distinct_first_occurrence [of lens_id ls k i]
  by (simp add: findIndex_def)

lemma deleteLens_absent:
  assumes "\<forall>l\<in>set (lenses s). lens_id l \<noteq> i"
  shows "deleteLens s i = s"
proof -
  have "filter_idx (\<lambda>_ j. j \<noteq> - 1) (distances s) = distances s"
    by (simp add: filter_idx_def filter_from_skip)
  with assms show ?thesis
    by (simp add: deleteLens_def Let_def findIndex_absent filter_none)
qed

lemma deleteLens_present:
  assumes d: "distinct (map lens_id (lenses s))"
    and k: "k < length (lenses s)" and i: "lens_id (lenses s ! k) = i"
  shows "lenses (deleteLens s i) = take k (lenses s) @ drop (Suc k) (lenses s)"
    and "distances (deleteLens s i) =
          (if Suc k < length (lenses s)
           then take k (distances s) @ drop (Suc k) (distances s)
           else butlast (distances s))"
    and "nextId (deleteLens s i) = nextId s"
proof -
  have fi: "findIndex (\<lambda>l. lens_id l = i) (lenses s) = int k"
    using d k i by (rule findIndex_distinct)
  have fl: "filter (\<lambda>l. lens_id l \<noteq> i) (lenses s) = take k (lenses s) @ drop (Suc k) (lenses s)"
    using d k i by (rule filter_remove_distinct)
  have len: "length (take k (lenses s) @ drop (Suc k) (lenses s)) = length (lenses s) - 1"
    using k by simp
  show "lenses (deleteLens s i) = take k (lenses s) @ drop (Suc k) (lenses s)"
    by (simp add: deleteLens_def Let_def fl)
  show "nextId (deleteLens s i) = nextId s"
    by (simp add: deleteLens_def Let_def)
  have skip: "filter_idx (\<lambda>_ j. j \<noteq> int k) (distances s) =
              take k (distances s) @ drop (Suc k) (distances s)"
    by (simp add: filter_idx_def filter_from_skip)
  show "distances (deleteLens s i) =
          (if Suc k < length (lenses s)
           then take k (distances s) @ drop (Suc k) (distances s)
           else butlast (distances s))"
  proof (cases "Suc k < length (lenses s)")
    case True
    then have "int k < int (length (lenses s) - 1)" by simp
    with True show ?thesis
      by (simp add: deleteLens_def Let_def fi fl skip del: take_append)
  next
    case False
    with k have "\<not> int k < int (length (lenses s) - 1)" by simp
    with False show ?thesis
      by (simp add: deleteLens_def Let_def fi fl slice_drop_last del: take_append)
  qed
qed

section \<open>Optics math\<close>

text \<open>
  C4, as the code has it. For non-zero power both variants of \<^verbatim>\<open>calcRadius\<close> return
  \<open>2 * (index - 1) / power\<close>, whatever the lens type. For zero power the nullable
  variant returns no value, while the current variant, whose return type is
  \<^verbatim>\<open>number\<close>, returns the number \<open>0\<close>.
\<close>

theorem calcRadius_value:
  "(p \<noteq> 0 \<longrightarrow> calcRadius p n ty = 2 * (n - 1) / p \<and>
                 calcRadius_nullable p n ty = Some (2 * (n - 1) / p)) \<and>
   (p = 0 \<longrightarrow> calcRadius p n ty = 0 \<and> calcRadius_nullable p n ty = None)"
  by (simp add: calcRadius_def calcRadius_nullable_def)

theorem calcRadius_value_witness:
  "(6::real) \<noteq> 0 \<and> calcRadius 6 (3 / 2) Biconvex = 1 / 6 \<and>
   calcRadius_nullable 6 (3 / 2) Biconvex = Some (1 / 6) \<and>
   calcRadius 0 (3 / 2) Biconcave = 0 \<and>
   calcRadius_nullable 0 (3 / 2) Biconcave = None"
  using calcRadius_value [of 6 "3 / 2" Biconvex] calcRadius_value [of 0 "3 / 2" Biconcave]
  by simp

text \<open>
  C4, as the claim words it, fails on the current \<^verbatim>\<open>calcRadius\<close>: at zero power
  the function does produce a radius value, the number \<open>0\<close>, which is what the state
  operations store in the field \<^verbatim>\<open>r\<close>.
\<close>

theorem calcRadius_zero_power_counterexample:
  "calcRadius 0 (3 / 2) Biconvex = 0 \<and>
   Some (calcRadius 0 (3 / 2) Biconvex) \<noteq> calcRadius_nullable 0 (3 / 2) Biconvex"
  by (simp add: calcRadius_def calcRadius_nullable_def)

text \<open>
  C9: for every non-zero power and every index, the biconvex and the biconcave branch
  of \<^verbatim>\<open>calcRadius\<close> give the same radius, in both variants of the function.
\<close>

theorem calcRadius_type_irrelevant:
  "p \<noteq> 0 \<Longrightarrow>
   calcRadius p n Biconvex = calcRadius p n Biconcave \<and>
   calcRadius_nullable p n Biconvex = calcRadius_nullable p n Biconcave"
  by (simp add: calcRadius_def calcRadius_nullable_def)

theorem calcRadius_type_irrelevant_witness:
  "(4::real) \<noteq> 0 \<and>
   calcRadius 4 (3 / 2) Biconvex = calcRadius 4 (3 / 2) Biconcave \<and>
   calcRadius_nullable 4 (3 / 2) Biconvex = calcRadius_nullable 4 (3 / 2) Biconcave"
  using calcRadius_type_irrelevant [of 4 "3 / 2"] by simp

section \<open>Adding a lens\<close>

text \<open>
  C1, evaluated on the code. Three calls of \<^verbatim>\<open>addLens\<close> from the empty state give
  three lenses and two distances. A further call leaves the lens sequence and the
  counter as they are, but still appends the default distance: the statement that
  appends it is guarded by \<^verbatim>\<open>length > 0\<close> alone. Four calls in a row thus end with
  three lenses and three distance entries.
\<close>

theorem addLens_at_cap_appends_distance:
  "run initial [AddLens, AddLens, AddLens] = three_lenses \<and>
   lenses (addLens three_lenses) = lenses three_lenses \<and>
   nextId (addLens three_lenses) = nextId three_lenses \<and>
   distances (addLens three_lenses) = [1, 1, 1] \<and>
   length (lenses (run initial [AddLens, AddLens, AddLens, AddLens])) = 3 \<and>
   length (distances (run initial [AddLens, AddLens, AddLens, AddLens])) = 3"
  by (simp add: run_def initial_def addLens_def three_lenses_def Let_def calcRadius_def)

section \<open>Lens identifiers\<close>

text \<open>
  Every operation keeps the identifiers pairwise distinct, so they are distinct in
  every state reached from the empty one.
\<close>

lemma updateLensPower_ids: "map lens_id (updateLensPower ls i p) = map lens_id ls"
  by (simp add: updateLensPower_def Let_def)

lemma updateLensIndex_ids: "map lens_id (updateLensIndex ls i n) = map lens_id ls"
  by (simp add: updateLensIndex_def Let_def)

lemma deleteLens_lenses: "lenses (deleteLens s i) = filter (\<lambda>l. lens_id l \<noteq> i) (lenses s)"
  by (simp add: deleteLens_def Let_def)

lemma deleteLens_nextId: "nextId (deleteLens s i) = nextId s"
  by (simp add: deleteLens_def Let_def)

lemma addLens_ids_fresh: "ids_fresh s \<Longrightarrow> ids_fresh (addLens s)"
  by (fastforce simp: ids_fresh_def addLens_def Let_def list_all_iff)

lemma deleteLens_ids_fresh: "ids_fresh s \<Longrightarrow> ids_fresh (deleteLens s i)"
  by (simp add: ids_fresh_def deleteLens_lenses deleteLens_nextId list_all_iff
      distinct_map_filter)

lemma step_ids_fresh: "ids_fresh s \<Longrightarrow> ids_fresh (step s a)"
proof (cases a)
  case AddLens
  assume "ids_fresh s"
  with AddLens show ?thesis by (simp add: addLens_ids_fresh)
next
  case (DeleteLens i)
  assume "ids_fresh s"
  with DeleteLens show ?thesis by (simp add: deleteLens_ids_fresh)
next
  case (UpdateLensPower i p)
  assume "ids_fresh s"
  with UpdateLensPower show ?thesis
    by (simp add: ids_fresh_def updateLensPower_ids)
next
  case (UpdateLensIndex i n)
  assume "ids_fresh s"
  with UpdateLensIndex show ?thesis
    by (simp add: ids_fresh_def updateLensIndex_ids)
next
  case (UpdateDistance j d)
  assume "ids_fresh s"
  with UpdateDistance show ?thesis by (simp add: ids_fresh_def)
qed

lemma run_ids_fresh: "ids_fresh s \<Longrightarrow> ids_fresh (run s acts)"
  unfolding run_def
  by (induction acts arbitrary: s) (simp_all add: step_ids_fresh)

lemma reachable_ids_distinct: "distinct (map lens_id (lenses (run initial acts)))"
proof -
  have "ids_fresh initial" by (simp add: ids_fresh_def initial_def)
  then have "ids_fresh (run initial acts)" by (rule run_ids_fresh)
  then show ?thesis by (simp add: ids_fresh_def)
qed

section \<open>Removing a lens\<close>

text \<open>
  C3: \<^verbatim>\<open>deleteLens\<close> with an identifier that no lens carries leaves both sequences
  as they are. With identifiers pairwise distinct, as the counter hands them out, and
  the identifier carried by the lens at position \<open>k\<close>, exactly that lens is removed;
  when \<open>k\<close> is not the last position the distance entry at position \<open>k\<close> is
  removed, and when \<open>k\<close> is the last position the last distance entry is removed
  (\<^const>\<open>butlast\<close> of the empty sequence is the empty sequence, so nothing is removed
  from an empty \<^verbatim>\<open>distances\<close>).
\<close>

theorem deleteLens_policy:
  "((\<forall>l\<in>set (lenses s). lens_id l \<noteq> i) \<longrightarrow>
      lenses (deleteLens s i) = lenses s \<and> distances (deleteLens s i) = distances s) \<and>
   (distinct (map lens_id (lenses s)) \<and> k < length (lenses s) \<and> lens_id (lenses s ! k) = i \<longrightarrow>
      lenses (deleteLens s i) = take k (lenses s) @ drop (Suc k) (lenses s) \<and>
      (Suc k < length (lenses s) \<longrightarrow>
         distances (deleteLens s i) = take k (distances s) @ drop (Suc k) (distances s)) \<and>
      (Suc k = length (lenses s) \<longrightarrow>
         distances (deleteLens s i) = butlast (distances s)))"
proof (intro conjI impI)
  assume "\<forall>l\<in>set (lenses s). lens_id l \<noteq> i"
  then have "deleteLens s i = s" by (rule deleteLens_absent)
  then show "lenses (deleteLens s i) = lenses s" "distances (deleteLens s i) = distances s"
    by simp_all
next
  assume a: "distinct (map lens_id (lenses s)) \<and> k < length (lenses s) \<and> lens_id (lenses s ! k) = i"
  then have d: "distinct (map lens_id (lenses s))" and k: "k < length (lenses s)"
    and i: "lens_id (lenses s ! k) = i"
    by simp_all
  show "lenses (deleteLens s i) = take k (lenses s) @ drop (Suc k) (lenses s)"
    using d k i by (rule deleteLens_present(1))
  note ds = deleteLens_present(2) [OF d k i]
  {
    assume "Suc k < length (lenses s)"
    with ds show "distances (deleteLens s i) = take k (distances s) @ drop (Suc k) (distances s)"
      by simp
  }
  {
    assume "Suc k = length (lenses s)"
    with ds show "distances (deleteLens s i) = butlast (distances s)"
      by simp
  }
qed

text \<open>
  On the chain of three lenses with gaps \<open>[1, 1.5]\<close>: an unknown identifier changes
  nothing, removing the last lens leaves the gap \<open>[1]\<close>, and removing the first lens
  leaves the gap \<open>[1.5]\<close>.
\<close>

theorem deleteLens_policy_witness:
  "7 \<notin> set (map lens_id (lenses three_spaced)) \<and>
   lenses (deleteLens three_spaced 7) = lenses three_spaced \<and>
   distances (deleteLens three_spaced 7) = [1, 3 / 2] \<and>
   distinct (map lens_id (lenses three_spaced)) \<and>
   2 < length (lenses three_spaced) \<and> lens_id (lenses three_spaced ! 2) = 3 \<and>
   Suc 2 = length (lenses three_spaced) \<and>
   map lens_id (lenses (deleteLens three_spaced 3)) = [1, 2] \<and>
   distances (deleteLens three_spaced 3) = [1] \<and>
   lens_id (lenses three_spaced ! 0) = 1 \<and>
   map lens_id (lenses (deleteLens three_spaced 1)) = [2, 3] \<and>
   distances (deleteLens three_spaced 1) = [3 / 2]"
  using deleteLens_policy [of three_spaced 7 0] deleteLens_policy [of three_spaced 3 2]
    deleteLens_policy [of three_spaced 1 0]
  by (simp add: three_spaced_def three_lenses_def numeral_3_eq_3)

section \<open>The length relation between lenses and distances\<close>

lemma updateLensPower_length: "length (updateLensPower ls i p) = length ls"
  by (simp add: updateLensPower_def)

lemma updateLensIndex_length: "length (updateLensIndex ls i n) = length ls"
  by (simp add: updateLensIndex_def)

lemma updateDistance_length: "length (updateDistance ds j d) = length ds"
  by (simp add: updateDistance_def map_idx_def map_from_length)

text \<open>
  Adding below the cap, removing by identifier (identifiers pairwise distinct) and the
  three updates keep the relation.
\<close>

lemma addLens_below_cap_inv:
  "length (lenses s) < 3 \<Longrightarrow> distances_inv s \<Longrightarrow> distances_inv (addLens s)"
  by (auto simp: distances_inv_def addLens_def Let_def)

lemma deleteLens_inv:
  assumes d: "distinct (map lens_id (lenses s))" and inv: "distances_inv s"
  shows "distances_inv (deleteLens s i)"
proof (cases "\<forall>l\<in>set (lenses s). lens_id l \<noteq> i")
  case True
  then have "deleteLens s i = s" by (rule deleteLens_absent)
  with inv show ?thesis by simp
next
  case False
  then obtain l where "l \<in> set (lenses s)" "lens_id l = i" by auto
  then obtain k where k: "k < length (lenses s)" and i: "lens_id (lenses s ! k) = i"
    by (auto simp: in_set_conv_nth)
  note ls = deleteLens_present(1) [OF d k i]
  note ds = deleteLens_present(2) [OF d k i]
  from inv k have len: "length (distances s) = length (lenses s) - 1"
    by (simp add: distances_inv_def)
  show ?thesis
  proof (cases "Suc k < length (lenses s)")
    case True
    with ds ls len k show ?thesis
      by (simp add: distances_inv_def)
  next
    case False
    with ds ls len k show ?thesis
      by (simp add: distances_inv_def)
  qed
qed

lemma step_inv:
  "distances_inv s \<Longrightarrow> distinct (map lens_id (lenses s)) \<Longrightarrow>
   (a = AddLens \<longrightarrow> length (lenses s) < 3) \<Longrightarrow> distances_inv (step s a)"
  by (cases a)
     (simp_all add: addLens_below_cap_inv deleteLens_inv,
      simp_all add: distances_inv_def updateLensPower_length updateLensIndex_length
        updateDistance_length)

text \<open>
  C2, evaluated on the code. The state reached by three calls of \<^verbatim>\<open>addLens\<close>
  satisfies the relation; one more call leaves three lenses and makes three distances,
  so the relation no longer holds.
\<close>

theorem addLens_breaks_distances_inv:
  "distances_inv three_lenses \<and> length (lenses three_lenses) = 3 \<and>
   length (lenses (addLens three_lenses)) = 3 \<and>
   length (distances (addLens three_lenses)) = 3 \<and>
   \<not> distances_inv (addLens three_lenses)"
  by (simp add: distances_inv_def addLens_def three_lenses_def Let_def)

section \<open>Updating the power\<close>

text \<open>
  C5: when the new power is \<open>0\<close> or is not above \<open>-7.8\<close>, \<^verbatim>\<open>updateLensPower\<close>
  returns the lens sequence unchanged, so every lens keeps its power and its radius.
  Otherwise each lens carrying the identifier gets the new power and the radius
  \<^verbatim>\<open>calcRadius(newPower, l.index, l.type)\<close> from its own index and type, and all
  other lenses stay as they are.
\<close>

theorem updateLensPower_policy:
  "((newPower = 0 \<or> \<not> newPower > - 7.8) \<longrightarrow> updateLensPower ls i newPower = ls) \<and>
   (newPower \<noteq> 0 \<and> newPower > - 7.8 \<longrightarrow>
      length (updateLensPower ls i newPower) = length ls \<and>
      (\<forall>k<length ls.
         updateLensPower ls i newPower ! k =
           (if lens_id (ls ! k) = i
            then (ls ! k)\<lparr>lens_power := newPower,
                   lens_r := calcRadius newPower (lens_index (ls ! k)) (lens_type (ls ! k))\<rparr>
            else ls ! k)))"
proof (intro conjI impI)
  assume "newPower = 0 \<or> \<not> newPower > - 7.8"
  then show "updateLensPower ls i newPower = ls"
    unfolding updateLensPower_def by (intro map_idI) auto
next
  assume "newPower \<noteq> 0 \<and> newPower > - 7.8"
  then show "\<forall>k<length ls.
         updateLensPower ls i newPower ! k =
           (if lens_id (ls ! k) = i
            then (ls ! k)\<lparr>lens_power := newPower,
                   lens_r := calcRadius newPower (lens_index (ls ! k)) (lens_type (ls ! k))\<rparr>
            else ls ! k)"
    by (simp add: updateLensPower_def Let_def)
qed (simp add: updateLensPower_def)

text \<open>
  On the three-lens state: power \<open>0\<close> and the bound \<open>-7.8\<close> itself are rejected;
  power \<open>4\<close> for lens 2 gives radius \<open>2 * (1.5 - 1) / 4 = 0.25\<close> and leaves lens 1
  alone.
\<close>

theorem updateLensPower_policy_witness:
  "updateLensPower (lenses three_lenses) 2 0 = lenses three_lenses \<and>
   \<not> (- 7.8 :: real) > - 7.8 \<and>
   updateLensPower (lenses three_lenses) 2 (- 7.8) = lenses three_lenses \<and>
   (4::real) \<noteq> 0 \<and> (4::real) > - 7.8 \<and> 1 < length (lenses three_lenses) \<and>
   updateLensPower (lenses three_lenses) 2 4 ! 1 =
     \<lparr>lens_id = 2, lens_power = 4, lens_index = 3 / 2, lens_type = Biconvex,
      lens_r = 1 / 4\<rparr> \<and>
   updateLensPower (lenses three_lenses) 2 4 ! 0 = lenses three_lenses ! 0"
  using updateLensPower_policy [of 0 "lenses three_lenses" 2]
    updateLensPower_policy [of "- 7.8" "lenses three_lenses" 2]
    updateLensPower_policy [of 4 "lenses three_lenses" 2]
  by (simp add: three_lenses_def calcRadius_def)

section \<open>The lower bound on the index\<close>

lemma step_index_ok: "index_ok s \<Longrightarrow> index_ok (step s a)"
  by (cases a)
     (auto simp: index_ok_def list_all_iff addLens_def deleteLens_def Let_def
        updateLensPower_def updateLensIndex_def)

lemma run_index_ok: "index_ok s \<Longrightarrow> index_ok (run s acts)"
  unfolding run_def
  by (induction acts arbitrary: s) (simp_all add: step_index_ok)

text \<open>
  C6: in every state reached from the empty state by any sequence of the five
  operations, with any arguments, every lens has index at least \<open>1.5\<close>. A lens is
  created with index exactly \<open>1.5\<close>, and \<^verbatim>\<open>updateLensIndex\<close> with a new index below
  \<open>1.5\<close> returns the lens sequence unchanged.
\<close>

theorem lens_index_lower_bound:
  "(\<forall>l\<in>set (lenses (run initial acts)). 3 / 2 \<le> lens_index l) \<and>
   (length (lenses s) < 3 \<longrightarrow> lens_index (last (lenses (addLens s))) = 3 / 2) \<and>
   (newIndex < 3 / 2 \<longrightarrow> updateLensIndex ls i newIndex = ls)"
proof (intro conjI impI)
  have "index_ok initial" by (simp add: index_ok_def initial_def)
  then have "index_ok (run initial acts)" by (rule run_index_ok)
  then show "\<forall>l\<in>set (lenses (run initial acts)). 3 / 2 \<le> lens_index l"
    by (simp add: index_ok_def list_all_iff)
next
  assume "length (lenses s) < 3"
  then show "lens_index (last (lenses (addLens s))) = 3 / 2"
    by (simp add: addLens_def Let_def)
next
  assume "newIndex < 3 / 2"
  then show "updateLensIndex ls i newIndex = ls"
    by (simp add: updateLensIndex_def)
qed

text \<open>
  One lens is added, the index \<open>1.4\<close> is refused and the index \<open>2\<close> is accepted.
\<close>

theorem lens_index_lower_bound_witness:
  "\<lparr>lens_id = 1, lens_power = 6, lens_index = 2, lens_type = Biconvex, lens_r = 1 / 3\<rparr>
     \<in> set (lenses (run initial [AddLens, UpdateLensIndex 1 1.4, UpdateLensIndex 1 2])) \<and>
   (3 / 2 :: real) \<le> lens_index
     \<lparr>lens_id = 1, lens_power = 6, lens_index = 2, lens_type = Biconvex, lens_r = 1 / 3\<rparr> \<and>
   length (lenses initial) < 3 \<and>
   lens_index (last (lenses (addLens initial))) = 3 / 2 \<and>
   (1.4 :: real) < 3 / 2 \<and>
   updateLensIndex (lenses three_lenses) 1 1.4 = lenses three_lenses"
  using lens_index_lower_bound
    [of "[AddLens, UpdateLensIndex 1 1.4, UpdateLensIndex 1 2]" initial "1.4"
       "lenses three_lenses" 1]
  by (simp add: run_def initial_def addLens_def updateLensIndex_def Let_def calcRadius_def)

section \<open>Updating a distance\<close>

lemma updateDistance_nth:
  "j < length ds \<Longrightarrow>
   updateDistance ds idx nd ! j = (if nd \<ge> 0.2 \<and> int j = idx then nd else ds ! j)"
  by (simp add: updateDistance_def map_idx_def map_from_nth)

text \<open>
  C10: \<^verbatim>\<open>updateDistance\<close> never changes the length of the distance sequence; for a
  position below \<open>0\<close> or at or beyond the length it returns the sequence unchanged,
  whatever the new distance is; every entry at a position other than the given one is
  unchanged, and the entry at the given position becomes the new distance when that
  is at least \<open>0.2\<close> and stays as it is otherwise.
\<close>

theorem updateDistance_frame:
  "length (updateDistance ds idx nd) = length ds \<and>
   ((idx < 0 \<or> int (length ds) \<le> idx) \<longrightarrow> updateDistance ds idx nd = ds) \<and>
   (\<forall>j<length ds. int j \<noteq> idx \<longrightarrow> updateDistance ds idx nd ! j = ds ! j) \<and>
   (\<forall>j<length ds. int j = idx \<longrightarrow>
      updateDistance ds idx nd ! j = (if nd \<ge> 0.2 then nd else ds ! j))"
proof (intro conjI impI allI)
  show len: "length (updateDistance ds idx nd) = length ds"
    by (rule updateDistance_length)
  assume out: "idx < 0 \<or> int (length ds) \<le> idx"
  show "updateDistance ds idx nd = ds"
  proof (rule nth_equalityI)
    show "length (updateDistance ds idx nd) = length ds" by (rule len)
  next
    fix j assume "j < length (updateDistance ds idx nd)"
    then have j: "j < length ds" by (simp add: len)
    with out have "int j \<noteq> idx" by auto
    with j show "updateDistance ds idx nd ! j = ds ! j"
      by (simp add: updateDistance_nth)
  qed
next
  fix j assume "j < length ds" "int j \<noteq> idx"
  then show "updateDistance ds idx nd ! j = ds ! j"
    by (simp add: updateDistance_nth)
next
  fix j assume "j < length ds" "int j = idx"
  then show "updateDistance ds idx nd ! j = (if nd \<ge> 0.2 then nd else ds ! j)"
    by (simp add: updateDistance_nth)
qed

text \<open>
  On the gaps \<open>[1, 1.5]\<close>: positions \<open>-1\<close> and \<open>2\<close> change nothing; position \<open>1\<close>
  with the new distance \<open>2\<close> changes the second entry only, and with \<open>0.1\<close> nothing.
\<close>

theorem updateDistance_frame_witness:
  "length (updateDistance [1, 3 / 2] 1 2) = 2 \<and>
   ((- 1 :: int) < 0 \<or> int (length [1, 3 / 2 :: real]) \<le> - 1) \<and>
   updateDistance [1, 3 / 2] (- 1) 2 = [1, 3 / 2] \<and>
   ((2 :: int) < 0 \<or> int (length [1, 3 / 2 :: real]) \<le> 2) \<and>
   updateDistance [1, 3 / 2] 2 2 = [1, 3 / 2] \<and>
   (0 :: nat) < length [1, 3 / 2 :: real] \<and> int 0 \<noteq> 1 \<and>
   updateDistance [1, 3 / 2] 1 2 ! 0 = 1 \<and>
   (1 :: nat) < length [1, 3 / 2 :: real] \<and> int 1 = 1 \<and>
   updateDistance [1, 3 / 2] 1 2 ! 1 = 2 \<and>
   updateDistance [1, 3 / 2] 1 0.1 ! 1 = 3 / 2"
  using updateDistance_frame [of "[1, 3 / 2]" 1 2]
    updateDistance_frame [of "[1, 3 / 2]" "- 1" 2]
    updateDistance_frame [of "[1, 3 / 2]" 2 2]
    updateDistance_frame [of "[1, 3 / 2]" 1 "0.1"]
  by simp

section \<open>Axial layout\<close>

text \<open>The loop adds the scaled distances of the positions it still has to visit.\<close>

lemma calculateLensX_loop_sum:
  "calculateLensX_loop ds idx i t = t + (\<Sum>j = i..<idx. distance_or_default ds j * 200)"
proof (induction "idx - i" arbitrary: i t)
  case 0
  then show ?case by (simp add: calculateLensX_loop.simps [of ds idx i t])
next
  case (Suc n)
  then have lt: "i < idx" and n: "n = idx - (i + 1)" by simp_all
  have "calculateLensX_loop ds idx (i + 1) (t + distance_or_default ds i * 200) =
        t + distance_or_default ds i * 200 + (\<Sum>j = i + 1..<idx. distance_or_default ds j * 200)"
    using n by (rule Suc.hyps(1))
  moreover have "(\<Sum>j = i..<idx. distance_or_default ds j * 200) =
        distance_or_default ds i * 200 + (\<Sum>j = i + 1..<idx. distance_or_default ds j * 200)"
    using lt by (simp add: sum.atLeast_Suc_lessThan)
  ultimately show ?case
    using lt by (simp add: calculateLensX_loop.simps [of ds idx i t])
qed

lemma calculateLensX_sum:
  "calculateLensX ds k = 200 + (\<Sum>j<k. distance_or_default ds j * 200)"
  by (simp add: calculateLensX_def calculateLensX_loop_sum atLeast0LessThan)

text \<open>
  C7: \<^verbatim>\<open>calculateLensX(0)\<close> is \<open>200\<close> whatever the distances are. For \<open>k > 0\<close>,
  \<^verbatim>\<open>calculateLensX(k)\<close> is \<open>200\<close> plus the sum over \<open>i < k\<close> of the \<open>i\<close>-th distance
  times \<open>200\<close>, where an entry that is missing counts as \<open>1\<close>; the operator \<^verbatim>\<open>||\<close>
  lets a stored \<open>0\<close> count as \<open>1\<close> too (second conjunct). When no stored distance is
  \<open>0\<close>, as in every sequence of positive distances, only missing entries take the
  default (third conjunct).
\<close>

theorem calculateLensX_prefix_sum:
  "calculateLensX ds 0 = 200 \<and>
   (0 < k \<longrightarrow> calculateLensX ds k =
      200 + (\<Sum>i<k. (if i < length ds \<and> ds ! i \<noteq> 0 then ds ! i else 1) * 200)) \<and>
   (0 < k \<and> (\<forall>d\<in>set ds. d \<noteq> 0) \<longrightarrow> calculateLensX ds k =
      200 + (\<Sum>i<k. (if i < length ds then ds ! i else 1) * 200))"
proof (intro conjI impI)
  show "calculateLensX ds 0 = 200" by (simp add: calculateLensX_def)
  show "calculateLensX ds k =
      200 + (\<Sum>i<k. (if i < length ds \<and> ds ! i \<noteq> 0 then ds ! i else 1) * 200)"
    unfolding calculateLensX_sum
    by (intro arg_cong2 [where f = "(+)"] sum.cong refl) (simp add: distance_or_default_def)
  assume "0 < k \<and> (\<forall>d\<in>set ds. d \<noteq> 0)"
  then have nz: "\<And>i. i < length ds \<Longrightarrow> ds ! i \<noteq> 0" by simp
  show "calculateLensX ds k =
      200 + (\<Sum>i<k. (if i < length ds then ds ! i else 1) * 200)"
    unfolding calculateLensX_sum
    by (intro arg_cong2 [where f = "(+)"] sum.cong refl) (simp add: distance_or_default_def nz)
qed

text \<open>
  For the distances \<open>[1, 1.5]\<close> the third lens stands at
  \<open>200 + 1 * 200 + 1.5 * 200 = 700\<close>; with the single distance \<open>[1]\<close> the missing
  second gap counts as \<open>1\<close> and the position is \<open>600\<close>.
\<close>

theorem calculateLensX_prefix_sum_witness:
  "calculateLensX [5, 7] 0 = 200 \<and>
   (0 :: nat) < 2 \<and> 0 \<notin> set [1, 3 / 2 :: real] \<and>
   calculateLensX [1, 3 / 2] 2 = 700 \<and>
   calculateLensX [1] 2 = 600"
  using calculateLensX_prefix_sum [of "[5, 7]" 2] calculateLensX_prefix_sum [of "[1, 3 / 2]" 2]
    calculateLensX_prefix_sum [of "[1]" 2]
  by (simp add: lessThan_Suc numeral_2_eq_2)

section \<open>Ray trace\<close>

lemma forEach_lens_length:
  "length (pathData (forEach_lens ds c ls i st)) = length (pathData st) + length ls"
  by (induction ls arbitrary: i st) (simp_all add: Let_def)

lemma forEach_lens_hd:
  "pathData st \<noteq> [] \<Longrightarrow>
   pathData (forEach_lens ds c ls i st) \<noteq> [] \<and>
   hd (pathData (forEach_lens ds c ls i st)) = hd (pathData st)"
  by (induction ls arbitrary: i st) (simp_all add: Let_def)

lemma forEach_lens_refines:
  "map point_of (pathData st) = p0 # pts \<Longrightarrow>
   foldl (trace_spec_step c) ((currentX st, currentYPos st, currentSlope st), pts)
     (zip (map (calculateLensX ds) [i..<i + length ls]) (map lens_power ls)) =
   ((currentX (forEach_lens ds c ls i st), currentYPos (forEach_lens ds c ls i st),
     currentSlope (forEach_lens ds c ls i st)),
    tl (map point_of (pathData (forEach_lens ds c ls i st))))"
proof (induction ls arbitrary: i st pts)
  case Nil
  then show ?case by simp
next
  case (Cons lens rest)
  define lensX where "lensX = calculateLensX ds i"
  define y where "y = currentYPos st + currentSlope st * (lensX - currentX st)"
  define st' where "st' = \<lparr>pathData = pathData st @ [L lensX y], currentX = lensX,
      currentYPos = y,
      currentSlope = currentSlope st + (- ((y - c) / 200) * lens_power lens) * 0.1\<rparr>"
  have unfold: "forEach_lens ds c (lens # rest) i st = forEach_lens ds c rest (i + 1) st'"
    by (simp add: Let_def st'_def y_def lensX_def)
  have pts': "map point_of (pathData st') = p0 # (pts @ [(lensX, y)])"
    using Cons.prems by (simp add: st'_def)
  have upt: "[i..<i + length (lens # rest)] = i # [i + 1..<i + 1 + length rest]"
    by (simp add: upt_rec)
  have stepeq: "trace_spec_step c ((currentX st, currentYPos st, currentSlope st), pts)
          (calculateLensX ds i, lens_power lens) =
        ((currentX st', currentYPos st', currentSlope st'), pts @ [(lensX, y)])"
    by (simp add: trace_spec_step_def Let_def st'_def y_def lensX_def)
  show ?case
    unfolding unfold upt
    using Cons.IH [OF pts', of "i + 1"]
    by (simp add: stepeq)
qed

text \<open>
  Two lenses of powers 6 and 4, one metre apart, on a canvas of 800 by 400: a ray
  entering 50 units off the axis is bent towards the axis at each lens.
\<close>

lemma simpleRayTrace_two_lenses:
  "simpleRayTrace \<lparr>dim_width = 800, dim_height = 400\<rparr> [1] 150
     [\<lparr>lens_id = 1, lens_power = 6, lens_index = 3 / 2, lens_type = Biconvex, lens_r = 1 / 6\<rparr>,
      \<lparr>lens_id = 2, lens_power = 4, lens_index = 3 / 2, lens_type = Biconvex, lens_r = 1 / 4\<rparr>] =
   [M 0 150, L 200 150, L 400 180, L 800 256]"
  by (simp add: simpleRayTrace_def Let_def calculateLensX_sum distance_or_default_def)

text \<open>
  C8: the points of the path built by \<^verbatim>\<open>simpleRayTrace\<close> are those of the fold
  \<^const>\<open>trace_spec\<close>: start at \<open>x = 0\<close>, \<open>y = startHeight\<close>, slope \<open>0\<close>; at each lens, in
  sequence order, move \<open>y\<close> by the slope times the horizontal distance to the lens,
  record the crossing point, and add \<open>0.1\<close> times \<open>-((y - centerAxisY) / 200) * power\<close>
  to the slope; at the end one more point at \<open>max(width, x + 100)\<close>, reached at the
  final slope. The path has one command per lens and two more, so it is finite, and it
  is returned for every lens sequence (the model is a total function defined by
  structural recursion). For the empty sequence the path is the single horizontal
  segment from \<open>(0, startHeight)\<close> to \<open>(max(width, 100), startHeight)\<close>.
\<close>

theorem simpleRayTrace_refines_trace_spec:
  "map point_of (simpleRayTrace dims ds startY ls) = trace_spec dims ds startY ls \<and>
   length (simpleRayTrace dims ds startY ls) = length ls + 2 \<and>
   simpleRayTrace dims ds startY [] = [M 0 startY, L (max (dim_width dims) 100) startY]"
proof (intro conjI)
  define st0 where "st0 = \<lparr>pathData = [M 0 startY], currentX = 0, currentYPos = startY,
      currentSlope = 0\<rparr>"
  define st where "st = forEach_lens ds (dim_height dims / 2) ls 0 st0"
  have p: "map point_of (pathData st0) = (0, startY) # []" by (simp add: st0_def)
  have len: "length (pathData st) = Suc (length ls)"
    by (simp add: st_def forEach_lens_length st0_def)
  have "pathData st \<noteq> [] \<and> hd (pathData st) = M 0 startY"
    using forEach_lens_hd [of st0 ds "dim_height dims / 2" ls 0]
    by (simp add: st_def st0_def)
  then have q: "map point_of (pathData st) = (0, startY) # tl (map point_of (pathData st))"
    by (cases "pathData st") auto
  have f: "foldl (trace_spec_step (dim_height dims / 2)) ((0, startY, 0), [])
       (zip (map (calculateLensX ds) [0..<length ls]) (map lens_power ls)) =
     ((currentX st, currentYPos st, currentSlope st), tl (map point_of (pathData st)))"
    using forEach_lens_refines [OF p, of "dim_height dims / 2" ds 0 ls]
    by (simp add: st_def st0_def)
  show "map point_of (simpleRayTrace dims ds startY ls) = trace_spec dims ds startY ls"
    using q unfolding trace_spec_def f
    by (simp add: simpleRayTrace_def Let_def st_def [symmetric] st0_def [symmetric])
  show "length (simpleRayTrace dims ds startY ls) = length ls + 2"
    using len by (simp add: simpleRayTrace_def Let_def st_def st0_def)
  show "simpleRayTrace dims ds startY [] = [M 0 startY, L (max (dim_width dims) 100) startY]"
    by (simp add: simpleRayTrace_def Let_def)
qed

end
